theory Spec2Isabelle
  imports Main "HOL-Library.Word" "HOL-Library.Multiset"
begin

section \<open>Utah population dashboard: the data preparation of \<open>Ames.py\<close>\<close>

text \<open>
  The script loads the national county boundaries (\<open>load_tiger_counties\<close>), reads the
  population table (\<open>read_utah_population\<close>), restricts the boundaries to Utah, left-joins
  them with the population table on \<open>GEOID\<close> (\<open>utah_gdf\<close>) and sorts the population table for
  the bar chart (\<open>plot_df\<close>).

  A pandas data frame is modelled as the list of its rows in order, each row paired with
  its index label: boolean-mask selection and \<open>sort_values\<close> keep the labels, \<open>read_csv\<close>
  and \<open>merge\<close> number the rows from 0. The numeric columns of the CSV file are taken to
  be \<open>int64\<close> columns, the type pandas infers when every cell of a column is an integer
  between \<open>- 2^63\<close> and \<open>2^63 - 1\<close>; they are 64-bit words read with \<open>sint\<close>. A table
  with an empty cell or a larger number in such a column is outside the model. Strings
  are character lists.
  The caching decorator \<open>st.cache_data\<close> only memoises and is left out.
\<close>

subsection \<open>Data model\<close>

type_synonym int64 = "64 word"

type_synonym 'r frame = "(nat \<times> 'r) list"

text \<open>The columns of \<open>DataPop.csv\<close> that the script reads.\<close>

record csv_row =
  SUMLEV :: int64
  STATE :: int64
  COUNTY :: int64
  CTYNAME :: string
  POPESTIMATE2020 :: int64
  POPESTIMATE2024 :: int64

text \<open>A row of \<open>pop_df\<close>, the result of \<open>read_utah_population\<close>.\<close>

record pop_row =
  NAME :: string
  GEOID :: string
  STATEFP :: string
  POP2020 :: int64
  POP2024 :: int64
  Pop_Change :: int64

datatype error = RetrievalError | ExtractionError | ParseError | MissingFileError

subsection \<open>String operations of the loaders\<close>

text \<open>\<open>astype(str)\<close> on an integer column: the decimal numeral, with \<open>-\<close> for negatives.\<close>

definition digit_char :: "nat \<Rightarrow> char" where
  "digit_char d = ''0123456789'' ! d"

function str_of_nat :: "nat \<Rightarrow> string" where
  "str_of_nat n =
     (if n < 10 then [digit_char n] else str_of_nat (n div 10) @ [digit_char (n mod 10)])"
  by pat_completeness auto
termination
  by (relation "measure id") auto

declare str_of_nat.simps [simp del]

definition str_of_int :: "int \<Rightarrow> string" where
  "str_of_int i = (if i < 0 then CHR ''-'' # str_of_nat (nat (- i)) else str_of_nat (nat i))"

text \<open>
  \<open>str.zfill(width)\<close>: a string of at least \<open>width\<close> characters is returned unchanged (never
  truncated); a shorter one is padded with \<open>0\<close> on the left, after a leading sign if there
  is one.
\<close>

definition zfill :: "nat \<Rightarrow> string \<Rightarrow> string" where
  "zfill width s =
     (if width \<le> length s then s
      else (case s of
              [] \<Rightarrow> replicate width CHR ''0''
            | c # rest \<Rightarrow>
                if c = CHR ''+'' \<or> c = CHR ''-''
                then c # replicate (width - length s) CHR ''0'' @ rest
                else replicate (width - length s) CHR ''0'' @ s))"

definition isdigit :: "char \<Rightarrow> bool" where
  "isdigit c = (c \<in> set ''0123456789'')"

subsection \<open>Population loader\<close>

text \<open>
  \<open>pd.read_csv(csv_path)\<close>: the file system maps a path to the parsed table, or to nothing
  when the path does not resolve. Rows are labelled 0, 1, 2, ...
\<close>

definition read_csv :: "(string \<rightharpoonup> csv_row list) \<Rightarrow> string \<Rightarrow> error + csv_row frame" where
  "read_csv fs path =
     (case fs path of
        None \<Rightarrow> Inl MissingFileError
      | Some table \<Rightarrow> Inr (enumerate 0 table))"

text \<open>
  Lines 65 to 82 of the script, on one row: the FIPS codes, the name, the selected and
  renamed columns and the change column. \<open>astype(int)\<close> is the identity on an \<open>int64\<close>
  column; the subtraction is that of \<open>int64\<close>, which is the exact difference whenever
  neither operand is negative.
\<close>

definition county_record :: "csv_row \<Rightarrow> pop_row" where
  "county_record r =
     (let statefp = zfill 2 (str_of_int (sint (STATE r)));
          countyfp = zfill 3 (str_of_int (sint (COUNTY r)));
          geoid = statefp @ countyfp;
          name = CTYNAME r;
          pop2020 = POPESTIMATE2020 r;
          pop2024 = POPESTIMATE2024 r
      in \<lparr>NAME = name, GEOID = geoid, STATEFP = statefp,
          POP2020 = pop2020, POP2024 = pop2024, Pop_Change = pop2024 - pop2020\<rparr>)"

definition read_utah_population ::
  "(string \<rightharpoonup> csv_row list) \<Rightarrow> string \<Rightarrow> error + pop_row frame" where
  "read_utah_population fs csv_path =
     (case read_csv fs csv_path of
        Inl e \<Rightarrow> Inl e
      | Inr df \<Rightarrow>
          (let df1 = filter (\<lambda>(i, r). SUMLEV r = 50) df;
               df2 = map (\<lambda>(i, r). (i, county_record r)) df1;
               df3 = filter (\<lambda>(i, r). STATEFP r = ''49'') df2
           in Inr df3))"

subsection \<open>Boundary loader\<close>

text \<open>
  A row of the county layer. The script reads the columns \<open>GEOID\<close> and \<open>STATEFP\<close>; the
  geometry is kept abstract.
\<close>

record 'g county_row =
  GEOID :: string
  STATEFP :: string
  geometry :: 'g

type_synonym byte = "8 word"

type_synonym files = "string \<rightharpoonup> byte list"

text \<open>
  The outcome of \<open>requests.get(tiger_url)\<close>: the call raises when no response arrives, and
  otherwise returns a response, whatever its status code.
\<close>

datatype http_outcome = RequestFailed | Response nat "byte list"

definition tiger_url :: string where
  "tiger_url = ''https://www2.census.gov/geo/tiger/TIGER2023/COUNTY/tl_2023_us_county.zip''"

text \<open>
  The library calls the loader relies on are parameters: \<open>ZipFile\<close> lists the members of
  an archive or fails on bytes that are no archive, \<open>read_file\<close> parses the shapefile at a
  path of the file system or fails, \<open>to_crs\<close> reprojects one geometry to EPSG:4326.
\<close>

record 'g libs =
  ZipFile :: "byte list \<Rightarrow> (string \<times> byte list) list option"
  read_file :: "files \<Rightarrow> string \<Rightarrow> 'g county_row list option"
  to_crs :: "'g \<Rightarrow> 'g"

text \<open>\<open>z.extractall(dir)\<close> writes every member below the directory.\<close>

fun extractall :: "(string \<times> byte list) list \<Rightarrow> string \<Rightarrow> files \<Rightarrow> files" where
  "extractall [] dir fs = fs"
| "extractall ((name, bytes) # members) dir fs =
     extractall members dir (fs(dir @ ''/'' @ name \<mapsto> bytes))"

text \<open>
  The loader takes the outcome of the request and the file system, and returns the frame
  or the error together with the file system it leaves behind. The status code of the
  response is not read anywhere.
\<close>

definition load_tiger_counties ::
  "'g libs \<Rightarrow> http_outcome \<Rightarrow> files \<Rightarrow> (error + 'g county_row frame) \<times> files" where
  "load_tiger_counties lib outcome fs =
     (case outcome of
        RequestFailed \<Rightarrow> (Inl RetrievalError, fs)
      | Response status_code content \<Rightarrow>
          (case ZipFile lib content of
             None \<Rightarrow> (Inl ExtractionError, fs)
           | Some z \<Rightarrow>
               (let fs' = extractall z ''/tmp/tiger_counties'' fs
                in case read_file lib fs' ''/tmp/tiger_counties/tl_2023_us_county.shp'' of
                     None \<Rightarrow> (Inl ParseError, fs')
                   | Some table \<Rightarrow>
                       (let gdf = enumerate 0 table;
                            gdf1 = map (\<lambda>(i, r).
                                     (i, r\<lparr>GEOID := zfill 5 (county_row.GEOID r)\<rparr>)) gdf;
                            gdf2 = map (\<lambda>(i, r).
                                     (i, r\<lparr>geometry := to_crs lib (geometry r)\<rparr>)) gdf1
                        in (Inr gdf2, fs')))))"

subsection \<open>Join and filter\<close>

text \<open>
  A row of the merged frame. \<open>GEOID\<close> is the key; \<open>STATEFP\<close> occurs on both sides, so
  pandas renames it to \<open>STATEFP_x\<close> (boundary side) and \<open>STATEFP_y\<close> (population side).
  The columns that come from the population side are null where no population row
  matches.
\<close>

record 'g merged_row =
  GEOID :: string
  STATEFP_x :: string
  geometry :: 'g
  NAME :: "string option"
  STATEFP_y :: "string option"
  POP2020 :: "int64 option"
  POP2024 :: "int64 option"
  Pop_Change :: "int64 option"

definition merged_with :: "'g county_row \<Rightarrow> pop_row option \<Rightarrow> 'g merged_row" where
  "merged_with b m =
     \<lparr>GEOID = county_row.GEOID b, STATEFP_x = county_row.STATEFP b,
      geometry = county_row.geometry b,
      NAME = map_option pop_row.NAME m, STATEFP_y = map_option pop_row.STATEFP m,
      POP2020 = map_option pop_row.POP2020 m, POP2024 = map_option pop_row.POP2024 m,
      Pop_Change = map_option pop_row.Pop_Change m\<rparr>"

text \<open>
  \<open>left.merge(right, on='GEOID', how='left')\<close>: the left rows in their order; each is
  paired with every right row of the same key, in the right frame's order, or once with
  nulls when there is none. The result is numbered from 0.
\<close>

definition join_rows :: "'g county_row \<Rightarrow> pop_row frame \<Rightarrow> 'g merged_row list" where
  "join_rows b right =
     (case filter (\<lambda>(j, p). pop_row.GEOID p = county_row.GEOID b) right of
        [] \<Rightarrow> [merged_with b None]
      | matches \<Rightarrow> map (\<lambda>(j, p). merged_with b (Some p)) matches)"

definition merge_left :: "'g county_row frame \<Rightarrow> pop_row frame \<Rightarrow> 'g merged_row frame" where
  "merge_left left right =
     enumerate 0 (concat (map (\<lambda>(i, b). join_rows b right) left))"

text \<open>Lines 107 and 110: \<open>TIGER\<close> restricted to Utah, then merged with \<open>pop_df\<close>.\<close>

definition utah_filter :: "'g county_row frame \<Rightarrow> 'g county_row frame" where
  "utah_filter TIGER = filter (\<lambda>(i, b). county_row.STATEFP b = ''49'') TIGER"

definition utah_gdf :: "'g county_row frame \<Rightarrow> pop_row frame \<Rightarrow> 'g merged_row frame" where
  "utah_gdf TIGER pop_df = merge_left (utah_filter TIGER) pop_df"

subsection \<open>Bar chart data\<close>

text \<open>
  \<open>pop_df.sort_values('POP2024', ascending=False)\<close>: the rows with their labels, ordered
  by decreasing signed value of the column. Rows of equal value are kept here in their
  original order; nothing below depends on the order among them.
\<close>

definition plot_df :: "pop_row frame \<Rightarrow> pop_row frame" where
  "plot_df pop_df = sort_key (\<lambda>(i, r). - sint (pop_row.POP2024 r)) pop_df"

subsection \<open>Sample inputs\<close>

text \<open>
  A small population table: the state row of Utah, two Utah counties and a county of
  Arizona. The first county is the example of the specification (10000 in 2020, 9500 in
  2024).
\<close>

definition demo_table :: "csv_row list" where
  "demo_table =
     [\<lparr>SUMLEV = 40, STATE = 49, COUNTY = 0, CTYNAME = ''Utah'',
        POPESTIMATE2020 = 3283785, POPESTIMATE2024 = 3503613\<rparr>,
      \<lparr>SUMLEV = 50, STATE = 49, COUNTY = 1, CTYNAME = ''Beaver County'',
        POPESTIMATE2020 = 10000, POPESTIMATE2024 = 9500\<rparr>,
      \<lparr>SUMLEV = 50, STATE = 4, COUNTY = 1, CTYNAME = ''Apache County'',
        POPESTIMATE2020 = 66000, POPESTIMATE2024 = 65000\<rparr>,
      \<lparr>SUMLEV = 50, STATE = 49, COUNTY = 35, CTYNAME = ''Salt Lake County'',
        POPESTIMATE2020 = 1186000, POPESTIMATE2024 = 1216000\<rparr>]"

definition demo_fs :: "string \<rightharpoonup> csv_row list" where
  "demo_fs = [''DataPop.csv'' \<mapsto> demo_table]"

definition beaver :: pop_row where
  "beaver =
     \<lparr>pop_row.NAME = ''Beaver County'', pop_row.GEOID = ''49001'',
      pop_row.STATEFP = ''49'', pop_row.POP2020 = 10000, pop_row.POP2024 = 9500,
      pop_row.Pop_Change = - 500\<rparr>"

definition salt_lake :: pop_row where
  "salt_lake =
     \<lparr>pop_row.NAME = ''Salt Lake County'', pop_row.GEOID = ''49035'',
      pop_row.STATEFP = ''49'', pop_row.POP2020 = 1186000, pop_row.POP2024 = 1216000,
      pop_row.Pop_Change = 30000\<rparr>"

definition demo_pop_df :: "pop_row frame" where
  "demo_pop_df = [(1, beaver), (3, salt_lake)]"

text \<open>
  The scenario of the specification: the boundaries of three Utah counties (and one of
  Arizona), and a population table for two of the three. Geometries are named by strings.
\<close>

definition demo_TIGER :: "string county_row frame" where
  "demo_TIGER =
     [(0, \<lparr>county_row.GEOID = ''04001'', county_row.STATEFP = ''04'',
           county_row.geometry = ''apache''\<rparr>),
      (1, \<lparr>county_row.GEOID = ''49001'', county_row.STATEFP = ''49'',
           county_row.geometry = ''beaver''\<rparr>),
      (2, \<lparr>county_row.GEOID = ''49003'', county_row.STATEFP = ''49'',
           county_row.geometry = ''box elder''\<rparr>),
      (3, \<lparr>county_row.GEOID = ''49005'', county_row.STATEFP = ''49'',
           county_row.geometry = ''cache''\<rparr>)]"

definition box_elder :: "string county_row" where
  "box_elder =
     \<lparr>county_row.GEOID = ''49003'', county_row.STATEFP = ''49'',
      county_row.geometry = ''box elder''\<rparr>"

definition scenario_pop_df :: "pop_row frame" where
  "scenario_pop_df =
     [(1, \<lparr>pop_row.NAME = ''Beaver County'', pop_row.GEOID = ''49001'',
           pop_row.STATEFP = ''49'', pop_row.POP2020 = 10000, pop_row.POP2024 = 10500,
           pop_row.Pop_Change = 500\<rparr>),
      (3, \<lparr>pop_row.NAME = ''Cache County'', pop_row.GEOID = ''49005'',
           pop_row.STATEFP = ''49'', pop_row.POP2020 = 5000, pop_row.POP2024 = 4800,
           pop_row.Pop_Change = - 200\<rparr>)]"

text \<open>
  A stand-in for the libraries of the boundary loader: bytes that start with \<open>PK\<close> are an
  archive whose single member is the shapefile, anything else is no archive; the
  shapefile, when it is there, holds the three Utah counties of the scenario; reprojection
  leaves the named geometries as they are.
\<close>

definition demo_libs :: "string libs" where
  "demo_libs =
     \<lparr>ZipFile = (\<lambda>content.
        if take 2 content = [80, 75] then Some [(''tl_2023_us_county.shp'', drop 2 content)]
        else None),
      read_file = (\<lambda>fs path.
        case fs path of
          None \<Rightarrow> None
        | Some bytes \<Rightarrow> Some (map snd (utah_filter demo_TIGER))),
      to_crs = (\<lambda>g. g)\<rparr>"


definition archive_bytes :: "byte list" where
  "archive_bytes = [80, 75, 3, 4]"

section \<open>Properties\<close>

subsection \<open>Decimal numerals and padding\<close>

lemma replicate_numeral: "replicate (numeral k) x = x # replicate (pred_numeral k) x"
  by (simp add: numeral_eq_Suc)

lemma digit_char_isdigit: "d < 10 \<Longrightarrow> isdigit (digit_char d)"
proof -
  assume "d < 10"
  then have "d \<in> {0,1,2,3,4,5,6,7,8,9}" by auto
  then show ?thesis by (auto simp: isdigit_def digit_char_def)
qed

lemma digit_char_inj: "a < 10 \<Longrightarrow> b < 10 \<Longrightarrow> digit_char a = digit_char b \<Longrightarrow> a = b"
proof -
  assume "a < 10" "b < 10" and e: "digit_char a = digit_char b"
  then have "a \<in> {0,1,2,3,4,5,6,7,8,9}" "b \<in> {0,1,2,3,4,5,6,7,8,9}" by auto
  with e show ?thesis by (auto simp: digit_char_def)
qed

lemma str_of_nat_digits: "\<forall>c \<in> set (str_of_nat n). isdigit c"
proof (induction n rule: str_of_nat.induct)
  case (1 n)
  show ?case
  proof (cases "n < 10")
    case True
    then show ?thesis by (simp add: str_of_nat.simps [of n] digit_char_isdigit)
  next
    case False
    with 1 show ?thesis by (simp add: str_of_nat.simps [of n] digit_char_isdigit)
  qed
qed

lemma str_of_nat_nonempty: "str_of_nat n \<noteq> []"
  by (subst str_of_nat.simps) simp

lemma length_str_of_nat_small: "n < 10 \<Longrightarrow> length (str_of_nat n) = 1"
  by (subst str_of_nat.simps) simp

lemma length_str_of_nat_step: "10 \<le> n \<Longrightarrow> length (str_of_nat n) = Suc (length (str_of_nat (n div 10)))"
  by (subst str_of_nat.simps) simp

lemma length_str_of_nat_le3: "n < 1000 \<Longrightarrow> length (str_of_nat n) \<le> 3"
proof -
  assume n: "n < 1000"
  show ?thesis
  proof (cases "n < 10")
    case True then show ?thesis by (simp add: length_str_of_nat_small)
  next
    case False
    show ?thesis
    proof (cases "n < 100")
      case True
      with False have "n div 10 < 10" by simp
      with False show ?thesis by (simp add: length_str_of_nat_step length_str_of_nat_small)
    next
      case F2: False
      then have a: "10 \<le> n div 10" by simp
      from n have "n div 10 div 10 < 10" by simp
      with False a show ?thesis by (simp add: length_str_of_nat_step length_str_of_nat_small)
    qed
  qed
qed

lemma length_str_of_nat_ge4: "1000 \<le> n \<Longrightarrow> 4 \<le> length (str_of_nat n)"
proof -
  assume n: "1000 \<le> n"
  then have a: "10 \<le> n" "10 \<le> n div 10" "10 \<le> n div 10 div 10" by simp_all
  have "1 \<le> length (str_of_nat (n div 10 div 10 div 10))"
    using str_of_nat_nonempty [of "n div 10 div 10 div 10"] by (cases "str_of_nat (n div 10 div 10 div 10)") simp_all
  with a show ?thesis by (simp add: length_str_of_nat_step)
qed

lemma str_of_nat_49: "str_of_nat n = ''49'' \<Longrightarrow> n = 49"
proof -
  assume e: "str_of_nat n = ''49''"
  have n10: "10 \<le> n"
  proof (rule ccontr)
    assume "\<not> 10 \<le> n"
    then have "length (str_of_nat n) = 1" by (simp add: length_str_of_nat_small)
    with e show False by simp
  qed
  then have s: "str_of_nat n = str_of_nat (n div 10) @ [digit_char (n mod 10)]"
    by (subst str_of_nat.simps) simp
  with e have hi: "str_of_nat (n div 10) = ''4''" and lo: "digit_char (n mod 10) = CHR ''9''"
    by simp_all
  have "n div 10 < 10"
  proof (rule ccontr)
    assume "\<not> n div 10 < 10"
    then have "length (str_of_nat (n div 10)) = Suc (length (str_of_nat (n div 10 div 10)))"
      by (simp add: length_str_of_nat_step)
    with hi str_of_nat_nonempty [of "n div 10 div 10"] show False by simp
  qed
  with hi have "digit_char (n div 10) = CHR ''4''"
    by (simp add: str_of_nat.simps [of "n div 10"])
  then have "digit_char (n div 10) = digit_char 4" by (simp add: digit_char_def)
  with \<open>n div 10 < 10\<close> have d: "n div 10 = 4"
    using digit_char_inj [of "n div 10" 4] by simp
  from lo have "digit_char (n mod 10) = digit_char 9" by (simp add: digit_char_def)
  then have m: "n mod 10 = 9"
    using digit_char_inj [of "n mod 10" 9] by simp
  from d m show ?thesis by presburger
qed

lemma str_of_int_49: "str_of_int i = ''49'' \<Longrightarrow> i = 49"
  by (auto simp: str_of_int_def split: if_splits dest: str_of_nat_49)

lemma zfill_long: "w \<le> length s \<Longrightarrow> zfill w s = s"
  by (simp add: zfill_def)

lemma length_zfill: "length (zfill w s) = max w (length s)"
  by (auto simp: zfill_def split: list.splits)

lemma zfill_2_49: "s \<noteq> [] \<Longrightarrow> zfill 2 s = ''49'' \<Longrightarrow> s = ''49''"
proof -
  assume ne: "s \<noteq> []" and z: "zfill 2 s = ''49''"
  show ?thesis
  proof (cases "2 \<le> length s")
    case True
    with z show ?thesis by (simp add: zfill_def)
  next
    case False
    from ne have "0 < length s" by simp
    with False have "length s = 1" by linarith
    then obtain c where s: "s = [c]" by (auto simp: length_Suc_conv)
    with z show ?thesis by (simp add: zfill_def split: if_splits)
  qed
qed

lemma zfill_digits: "\<forall>c \<in> set s. isdigit c \<Longrightarrow> \<forall>c \<in> set (zfill w s). isdigit c"
  by (auto simp: zfill_def isdigit_def split: list.splits)

lemma str_of_int_nonempty: "str_of_int i \<noteq> []"
  by (simp add: str_of_int_def str_of_nat_nonempty)

lemma statefp_49: "zfill 2 (str_of_int (sint (w :: int64))) = ''49'' \<longleftrightarrow> w = 49"
proof
  assume "zfill 2 (str_of_int (sint w)) = ''49''"
  then have "str_of_int (sint w) = ''49''" by (rule zfill_2_49 [OF str_of_int_nonempty])
  then have "sint w = 49" by (rule str_of_int_49)
  then have "word_of_int (sint w) = (word_of_int 49 :: int64)" by simp
  then show "w = 49" by simp
next
  assume "w = 49"
  then show "zfill 2 (str_of_int (sint w)) = ''49''"
    by (simp add: zfill_def str_of_int_def str_of_nat.simps digit_char_def)
qed

lemma countyfp_three_digits:
  "(length (zfill 3 (str_of_int k)) = 3 \<and> (\<forall>ch \<in> set (zfill 3 (str_of_int k)). isdigit ch))
     \<longleftrightarrow> (0 \<le> k \<and> k \<le> 999)"
proof (cases "k < 0")
  case True
  then have "CHR ''-'' \<in> set (zfill 3 (str_of_int k))"
    by (simp add: str_of_int_def zfill_def)
  moreover have "\<not> isdigit CHR ''-''" by (simp add: isdigit_def)
  ultimately show ?thesis using True by auto
next
  case nonneg: False
  then have s: "str_of_int k = str_of_nat (nat k)" by (simp add: str_of_int_def)
  show ?thesis
  proof (cases "k \<le> 999")
    case True
    with nonneg have "nat k < 1000" by simp
    then have "length (str_of_nat (nat k)) \<le> 3" by (rule length_str_of_nat_le3)
    then have "length (zfill 3 (str_of_int k)) = 3" by (simp add: s length_zfill)
    moreover have "\<forall>ch \<in> set (zfill 3 (str_of_int k)). isdigit ch"
      unfolding s by (rule zfill_digits [OF str_of_nat_digits])
    ultimately show ?thesis using True nonneg by simp
  next
    case False
    then have "1000 \<le> nat k" by simp
    then have "4 \<le> length (str_of_nat (nat k))" by (rule length_str_of_nat_ge4)
    then have "length (zfill 3 (str_of_int k)) \<noteq> 3" by (simp add: s length_zfill)
    with False show ?thesis by simp
  qed
qed

lemma str_of_nat_step:
  "10 \<le> n \<Longrightarrow> str_of_nat n = str_of_nat (n div 10) @ [digit_char (n mod 10)]"
  by (subst str_of_nat.simps) simp

lemma digit_char_not_sign: "d < 10 \<Longrightarrow> digit_char d \<noteq> CHR ''+'' \<and> digit_char d \<noteq> CHR ''-''"
proof -
  assume "d < 10"
  then have "isdigit (digit_char d)" by (rule digit_char_isdigit)
  then show ?thesis by (auto simp: isdigit_def)
qed

lemma zfill_3_of_code:
  assumes "k < 1000"
  shows "zfill 3 (str_of_nat k)
           = [digit_char (k div 100), digit_char (k div 10 mod 10), digit_char (k mod 10)]"
proof (cases "k < 10")
  case True
  then have s: "str_of_nat k = [digit_char k]" by (subst str_of_nat.simps) simp
  from True have z: "k div 100 = 0" "k div 10 mod 10 = 0" "k mod 10 = k" by simp_all
  have "zfill 3 [digit_char k] = [digit_char 0, digit_char 0, digit_char k]"
    using digit_char_not_sign [OF True]
    by (simp add: zfill_def replicate_numeral digit_char_def)
  with s z show ?thesis by simp
next
  case ge10: False
  show ?thesis
  proof (cases "k < 100")
    case True
    with ge10 have lo: "k div 10 < 10" and z: "k div 100 = 0" "k div 10 mod 10 = k div 10"
      by simp_all
    from ge10 have "str_of_nat k = str_of_nat (k div 10) @ [digit_char (k mod 10)]"
      by (intro str_of_nat_step) simp
    also from lo have "str_of_nat (k div 10) = [digit_char (k div 10)]"
      by (subst str_of_nat.simps) simp
    finally have s: "str_of_nat k = [digit_char (k div 10), digit_char (k mod 10)]" by simp
    have "zfill 3 [digit_char (k div 10), digit_char (k mod 10)]
            = [digit_char 0, digit_char (k div 10), digit_char (k mod 10)]"
      using digit_char_not_sign [OF lo] by (simp add: zfill_def digit_char_def)
    with s z show ?thesis by simp
  next
    case False
    then have ge: "10 \<le> k" "10 \<le> k div 10" by simp_all
    from assms have lo: "k div 10 div 10 < 10" by simp
    have d: "k div 10 div 10 = k div 100" by (simp add: div_mult2_eq [symmetric])
    from ge have "str_of_nat k
        = (str_of_nat (k div 10 div 10) @ [digit_char (k div 10 mod 10)]) @ [digit_char (k mod 10)]"
      using str_of_nat_step [of k] str_of_nat_step [of "k div 10"] by simp
    also from lo have "str_of_nat (k div 10 div 10) = [digit_char (k div 10 div 10)]"
      by (subst str_of_nat.simps) simp
    finally have "str_of_nat k
        = [digit_char (k div 100), digit_char (k div 10 mod 10), digit_char (k mod 10)]"
      by (simp add: d)
    then show ?thesis by (simp add: zfill_def)
  qed
qed

lemma str_of_nat_utah_code:
  assumes "k < 1000"
  shows "str_of_nat (49000 + k) = ''49'' @ zfill 3 (str_of_nat k)"
proof -
  have e1: "49000 + k = k + 4900 * 10" by simp
  have a: "(49000 + k) div 10 = 4900 + k div 10" "(49000 + k) mod 10 = k mod 10"
    unfolding e1 by (rule div_mult_self1, simp) (rule mod_mult_self1)
  have d: "k div 10 div 10 = k div 100" by (simp add: div_mult2_eq [symmetric])
  have e2: "4900 + k div 10 = k div 10 + 490 * 10" by simp
  have b: "(4900 + k div 10) div 10 = 490 + k div 10 div 10"
    "(4900 + k div 10) mod 10 = k div 10 mod 10"
    unfolding e2 by (rule div_mult_self1, simp) (rule mod_mult_self1)
  from assms have lo: "k div 100 < 10" by simp
  have e3: "490 + k div 100 = k div 100 + 49 * 10" by simp
  have "(490 + k div 100) div 10 = 49 + k div 100 div 10"
    "(490 + k div 100) mod 10 = k div 100 mod 10"
    unfolding e3 by (rule div_mult_self1, simp) (rule mod_mult_self1)
  with lo have c: "(490 + k div 100) div 10 = 49" "(490 + k div 100) mod 10 = k div 100"
    by simp_all
  have "str_of_nat (49000 + k)
          = str_of_nat (4900 + k div 10) @ [digit_char (k mod 10)]"
    using str_of_nat_step [of "49000 + k"] by (simp add: a)
  also have "str_of_nat (4900 + k div 10)
          = str_of_nat (490 + k div 100) @ [digit_char (k div 10 mod 10)]"
    using str_of_nat_step [of "4900 + k div 10"] by (simp add: b d)
  also have "str_of_nat (490 + k div 100) = str_of_nat 49 @ [digit_char (k div 100)]"
    using str_of_nat_step [of "490 + k div 100"] by (simp add: c)
  also have "str_of_nat 49 = ''49''" by (simp add: str_of_nat.simps digit_char_def)
  finally show ?thesis by (simp add: zfill_3_of_code [OF assms])
qed

lemma read_csv_Inr: "read_csv fs p = Inr df \<Longrightarrow> \<exists>table. fs p = Some table \<and> df = enumerate 0 table"
  by (auto simp: read_csv_def split: option.splits)

lemma read_csv_labels: "read_csv fs p = Inr df \<Longrightarrow> (i, c) \<in> set df \<Longrightarrow> (i, c') \<in> set df \<Longrightarrow> c = c'"
  by (auto dest!: read_csv_Inr simp: in_set_enumerate_eq)

lemma read_utah_population_rows:
  assumes "read_csv fs p = Inr df" and "read_utah_population fs p = Inr out"
  shows "(i, r) \<in> set out \<longleftrightarrow>
           (\<exists>c. (i, c) \<in> set df \<and> SUMLEV c = 50 \<and> r = county_record c \<and> pop_row.STATEFP r = ''49'')"
  using assms by (auto simp: read_utah_population_def)

lemma read_utah_population_returns:
  "fs p = Some table \<Longrightarrow> \<exists>out. read_utah_population fs p = Inr out"
  by (simp add: read_utah_population_def read_csv_def)

lemma read_utah_population_missing:
  "fs p = None \<Longrightarrow> read_utah_population fs p = Inl MissingFileError"
  by (simp add: read_utah_population_def read_csv_def)

lemma county_record_STATEFP: "pop_row.STATEFP (county_record c) = ''49'' \<longleftrightarrow> STATE c = 49"
  by (simp add: county_record_def Let_def statefp_49)

lemma sint_diff_exact:
  "sint (a - b :: int64) = sint a - sint b \<longleftrightarrow> - (2 ^ 63) \<le> sint a - sint b \<and> sint a - sint b < 2 ^ 63"
  by (simp add: sint_word_ariths signed_take_bit_int_eq_self_iff)

subsection \<open>Evaluating the loader on the sample inputs\<close>

lemmas demo_eval = read_utah_population_def read_csv_def county_record_def zfill_def
  str_of_int_def str_of_nat.simps digit_char_def replicate_numeral

lemma demo_read_csv: "read_csv demo_fs ''DataPop.csv'' = Inr (enumerate 0 demo_table)"
  by (simp add: read_csv_def demo_fs_def)

lemma demo_read_utah_population: "read_utah_population demo_fs ''DataPop.csv'' = Inr demo_pop_df"
  by (simp add: demo_eval demo_fs_def demo_table_def demo_pop_df_def beaver_def salt_lake_def)

subsection \<open>Population loader: the change column\<close>

text \<open>
  Claim C2. For every row retained by the population loader whose two population
  estimates are counts (neither is negative), \<open>POP2020\<close> and \<open>POP2024\<close> are the two
  estimates of the input row with the same label, and \<open>Pop_Change\<close> is the 2024 estimate
  minus the 2020 estimate as an exact integer, sign included: it is negative exactly when
  the 2024 estimate is the smaller one.
\<close>

theorem pop_change_exact:
  assumes "read_csv fs p = Inr df" and "read_utah_population fs p = Inr out"
    and "(i, c) \<in> set df" and "(i, r) \<in> set out"
    and "0 \<le> sint (POPESTIMATE2020 c)" and "0 \<le> sint (POPESTIMATE2024 c)"
  shows "pop_row.POP2020 r = POPESTIMATE2020 c \<and> pop_row.POP2024 r = POPESTIMATE2024 c
    \<and> sint (pop_row.Pop_Change r) = sint (POPESTIMATE2024 c) - sint (POPESTIMATE2020 c)
    \<and> sint (pop_row.Pop_Change r) = sint (pop_row.POP2024 r) - sint (pop_row.POP2020 r)
    \<and> (sint (pop_row.Pop_Change r) < 0 \<longleftrightarrow> sint (pop_row.POP2024 r) < sint (pop_row.POP2020 r))"
proof -
  from assms(4) obtain c' where c': "(i, c') \<in> set df" and r': "r = county_record c'"
    using read_utah_population_rows [OF assms(1,2)] by blast
  have "c = c'" by (rule read_csv_labels [OF assms(1,3) c'])
  with r' have r: "r = county_record c" by simp
  have cols: "pop_row.POP2020 r = POPESTIMATE2020 c" "pop_row.POP2024 r = POPESTIMATE2024 c"
    and chg: "pop_row.Pop_Change r = POPESTIMATE2024 c - POPESTIMATE2020 c"
    by (simp_all add: r county_record_def Let_def)
  have "sint (POPESTIMATE2020 c) < 2 ^ 63" "sint (POPESTIMATE2024 c) < 2 ^ 63"
    using sint_lt [of "POPESTIMATE2020 c"] sint_lt [of "POPESTIMATE2024 c"] by simp_all
  with assms(5,6)
  have "- (2 ^ 63) \<le> sint (POPESTIMATE2024 c) - sint (POPESTIMATE2020 c)
        \<and> sint (POPESTIMATE2024 c) - sint (POPESTIMATE2020 c) < 2 ^ 63"
    by linarith
  then have exact: "sint (pop_row.Pop_Change r)
                      = sint (POPESTIMATE2024 c) - sint (POPESTIMATE2020 c)"
    unfolding chg by (simp only: sint_diff_exact)
  with cols show ?thesis by simp
qed

text \<open>
  The example of the specification: 10000 in 2020 and 9500 in 2024 give a change of
  \<open>- 500\<close>.
\<close>

theorem pop_change_exact_witness:
  "read_csv demo_fs ''DataPop.csv'' = Inr (enumerate 0 demo_table)
   \<and> read_utah_population demo_fs ''DataPop.csv'' = Inr demo_pop_df
   \<and> (1, demo_table ! 1) \<in> set (enumerate 0 demo_table)
   \<and> (1, beaver) \<in> set demo_pop_df
   \<and> sint (POPESTIMATE2020 (demo_table ! 1)) = 10000
   \<and> sint (POPESTIMATE2024 (demo_table ! 1)) = 9500
   \<and> sint (pop_row.Pop_Change beaver) = - 500"
proof -
  have c: "(1, demo_table ! 1) \<in> set (enumerate 0 demo_table)"
    by (simp add: in_set_enumerate_eq demo_table_def)
  have r: "(1, beaver) \<in> set demo_pop_df"
    by (simp add: demo_pop_df_def)
  have v: "sint (POPESTIMATE2020 (demo_table ! 1)) = 10000"
    "sint (POPESTIMATE2024 (demo_table ! 1)) = 9500"
    by (simp_all add: demo_table_def)
  then have n: "0 \<le> sint (POPESTIMATE2020 (demo_table ! 1))"
    "0 \<le> sint (POPESTIMATE2024 (demo_table ! 1))"
    by simp_all
  from pop_change_exact [OF demo_read_csv demo_read_utah_population c r n]
  have "sint (pop_row.Pop_Change beaver)
          = sint (POPESTIMATE2024 (demo_table ! 1)) - sint (POPESTIMATE2020 (demo_table ! 1))"
    by blast
  with v have "sint (pop_row.Pop_Change beaver) = - 500" by simp
  with demo_read_csv demo_read_utah_population c r v show ?thesis by blast
qed

subsection \<open>Population loader: the summary-level filter\<close>

text \<open>
  Claim C3. Every row of the population loader's output carries the label of an input
  row whose \<open>SUMLEV\<close> is 50 and is the record derived from that row; and no input row
  whose \<open>SUMLEV\<close> differs from 50 has its label in the output.
\<close>

theorem sumlev_filter:
  assumes "read_csv fs p = Inr df" and "read_utah_population fs p = Inr out"
  shows "(\<forall>(i, r) \<in> set out. \<exists>c. (i, c) \<in> set df \<and> SUMLEV c = 50 \<and> r = county_record c)
       \<and> (\<forall>(i, c) \<in> set df. SUMLEV c \<noteq> 50 \<longrightarrow> i \<notin> fst ` set out)"
proof (intro conjI)
  show "\<forall>(i, r) \<in> set out. \<exists>c. (i, c) \<in> set df \<and> SUMLEV c = 50 \<and> r = county_record c"
    using read_utah_population_rows [OF assms] by blast
next
  have "False" if c: "(i, c) \<in> set df" and ne: "SUMLEV c \<noteq> 50" and r: "(i, r) \<in> set out"
    for i c r
  proof -
    from r obtain c' where c': "(i, c') \<in> set df" "SUMLEV c' = 50"
      using read_utah_population_rows [OF assms] by blast
    have "c = c'" by (rule read_csv_labels [OF assms(1) c c'(1)])
    with ne c'(2) show False by simp
  qed
  then show "\<forall>(i, c) \<in> set df. SUMLEV c \<noteq> 50 \<longrightarrow> i \<notin> fst ` set out"
    by fastforce
qed

text \<open>
  On the sample table the state row (label 0, \<open>SUMLEV\<close> 40) is absent and the row of
  label 1 comes from a county row.
\<close>

theorem sumlev_filter_witness:
  "read_csv demo_fs ''DataPop.csv'' = Inr (enumerate 0 demo_table)
   \<and> read_utah_population demo_fs ''DataPop.csv'' = Inr demo_pop_df
   \<and> (0, demo_table ! 0) \<in> set (enumerate 0 demo_table) \<and> SUMLEV (demo_table ! 0) = 40
   \<and> 0 \<notin> fst ` set demo_pop_df
   \<and> (1, beaver) \<in> set demo_pop_df
   \<and> (1, demo_table ! 1) \<in> set (enumerate 0 demo_table) \<and> SUMLEV (demo_table ! 1) = 50
   \<and> beaver = county_record (demo_table ! 1)"
proof -
  note t = sumlev_filter [OF demo_read_csv demo_read_utah_population]
  have c0: "(0, demo_table ! 0) \<in> set (enumerate 0 demo_table)" "SUMLEV (demo_table ! 0) = 40"
    by (simp_all add: in_set_enumerate_eq demo_table_def)
  with t have out0: "0 \<notin> fst ` set demo_pop_df" by fastforce
  have r: "(1, beaver) \<in> set demo_pop_df" by (simp add: demo_pop_df_def)
  with t obtain c where c: "(1, c) \<in> set (enumerate 0 demo_table)" "SUMLEV c = 50"
    "beaver = county_record c" by blast
  from c(1) have "c = demo_table ! 1" by (simp add: in_set_enumerate_eq)
  with c demo_read_csv demo_read_utah_population c0 out0 r show ?thesis by simp
qed

subsection \<open>Population loader: the identifier\<close>

text \<open>
  The boundary loader, when the archive opens and the shapefile parses, returns for each
  parsed row a row of the same label whose \<open>GEOID\<close> is the parsed one padded to 5
  characters.
\<close>

lemma load_tiger_counties_row:
  assumes "ZipFile lib content = Some z"
    and "read_file lib (extractall z ''/tmp/tiger_counties'' files)
           ''/tmp/tiger_counties/tl_2023_us_county.shp'' = Some table"
    and "j < length table"
  shows "\<exists>gdf files' b.
           load_tiger_counties lib (Response status_code content) files = (Inr gdf, files')
           \<and> (j, b) \<in> set gdf
           \<and> county_row.GEOID b = zfill 5 (county_row.GEOID (table ! j))
           \<and> county_row.STATEFP b = county_row.STATEFP (table ! j)
           \<and> county_row.geometry b = to_crs lib (county_row.geometry (table ! j))"
proof -
  let ?norm = "\<lambda>(i, r). (i, r\<lparr>county_row.GEOID := zfill 5 (county_row.GEOID r)\<rparr>)"
  let ?proj = "\<lambda>(i, r). (i, r\<lparr>county_row.geometry := to_crs lib (county_row.geometry r)\<rparr>)"
  let ?gdf = "map ?proj (map ?norm (enumerate 0 table))"
  let ?b = "(table ! j)\<lparr>county_row.GEOID := zfill 5 (county_row.GEOID (table ! j)),
                         county_row.geometry := to_crs lib (county_row.geometry (table ! j))\<rparr>"
  from assms(1,2) have run: "load_tiger_counties lib (Response status_code content) files
      = (Inr ?gdf, extractall z ''/tmp/tiger_counties'' files)"
    by (simp add: load_tiger_counties_def Let_def)
  from assms(3) have "(j, table ! j) \<in> set (enumerate 0 table)"
    by (simp add: in_set_enumerate_eq)
  then have "?proj (?norm (j, table ! j)) \<in> set ?gdf" by (simp only: set_map image_eqI)
  then have "(j, ?b) \<in> set ?gdf" by simp
  with run show ?thesis by (intro exI [of _ ?gdf] exI [of _ ?b] exI) simp
qed

text \<open>
  Claim C4. For every row retained by the population loader whose county code is a FIPS
  county code (between 0 and 999), \<open>GEOID\<close> is the state code padded to 2 characters
  followed by the county code padded to 3 characters, is exactly 5 characters long and
  consists of digits only. It has the format of the boundary loader's identifier: it is
  the decimal numeral of the 5-digit code padded to 5 characters, and a boundary row
  whose parsed identifier is that numeral, or the padded identifier itself, leaves
  \<open>load_tiger_counties\<close> with exactly the same \<open>GEOID\<close>.
\<close>

theorem geoid_five_digits:
  assumes "read_csv fs p = Inr df" and "read_utah_population fs p = Inr out"
    and "(i, c) \<in> set df" and "(i, r) \<in> set out"
    and "0 \<le> sint (COUNTY c)" and "sint (COUNTY c) \<le> 999"
  shows "pop_row.GEOID r
           = zfill 2 (str_of_int (sint (STATE c))) @ zfill 3 (str_of_int (sint (COUNTY c)))
       \<and> length (pop_row.GEOID r) = 5
       \<and> (\<forall>ch \<in> set (pop_row.GEOID r). isdigit ch)
       \<and> pop_row.GEOID r = zfill 5 (str_of_int (1000 * sint (STATE c) + sint (COUNTY c)))
       \<and> (ZipFile lib content = Some z
            \<and> read_file lib (extractall z ''/tmp/tiger_counties'' files)
                  ''/tmp/tiger_counties/tl_2023_us_county.shp'' = Some table
            \<and> j < length table
            \<and> (county_row.GEOID (table ! j) = pop_row.GEOID r
                 \<or> county_row.GEOID (table ! j)
                      = str_of_int (1000 * sint (STATE c) + sint (COUNTY c)))
          \<longrightarrow> (\<exists>gdf files' b.
                 load_tiger_counties lib (Response status_code content) files = (Inr gdf, files')
                 \<and> (j, b) \<in> set gdf \<and> county_row.GEOID b = pop_row.GEOID r))"
proof -
  from assms(4) obtain c' where c': "(i, c') \<in> set df" and r': "r = county_record c'"
    and s: "pop_row.STATEFP r = ''49''"
    using read_utah_population_rows [OF assms(1,2)] by blast
  have "c = c'" by (rule read_csv_labels [OF assms(1,3) c'])
  with r' have r: "r = county_record c" by simp
  let ?k = "sint (COUNTY c)"
  have g: "pop_row.GEOID r = zfill 2 (str_of_int (sint (STATE c))) @ zfill 3 (str_of_int ?k)"
    by (simp add: r county_record_def Let_def)
  from s have st: "STATE c = 49" by (simp add: r county_record_STATEFP)
  then have s2: "zfill 2 (str_of_int (sint (STATE c))) = ''49''"
    using statefp_49 [of "STATE c"] by blast
  have g49: "pop_row.GEOID r = ''49'' @ zfill 3 (str_of_int ?k)"
    using g s2 by simp
  from assms(5,6) have three: "length (zfill 3 (str_of_int ?k)) = 3"
    "\<forall>ch \<in> set (zfill 3 (str_of_int ?k)). isdigit ch"
    using countyfp_three_digits [of ?k] by simp_all
  from three(1) have len: "length (pop_row.GEOID r) = 5" by (simp add: g49)
  from three(2) have dig: "\<forall>ch \<in> set (pop_row.GEOID r). isdigit ch"
    by (auto simp: g49 isdigit_def)
  from assms(5,6) have k: "nat ?k < 1000" by simp
  from assms(5) have "1000 * sint (STATE c) + ?k = int (49000 + nat ?k)" by (simp add: st)
  then have "str_of_int (1000 * sint (STATE c) + ?k) = str_of_nat (49000 + nat ?k)"
    by (simp only: str_of_int_def nat_int) simp
  also have "\<dots> = ''49'' @ zfill 3 (str_of_nat (nat ?k))" by (rule str_of_nat_utah_code [OF k])
  also from assms(5) have "str_of_nat (nat ?k) = str_of_int ?k" by (simp add: str_of_int_def)
  finally have num: "str_of_int (1000 * sint (STATE c) + ?k) = pop_row.GEOID r"
    by (simp add: g49)
  from len have fixed: "zfill 5 (pop_row.GEOID r) = pop_row.GEOID r" by (simp add: zfill_long)
  have code: "pop_row.GEOID r = zfill 5 (str_of_int (1000 * sint (STATE c) + ?k))"
    by (simp only: num fixed)
  have tie: "\<exists>gdf files' b.
                 load_tiger_counties lib (Response status_code content) files = (Inr gdf, files')
                 \<and> (j, b) \<in> set gdf \<and> county_row.GEOID b = pop_row.GEOID r"
    if z: "ZipFile lib content = Some z"
      and t: "read_file lib (extractall z ''/tmp/tiger_counties'' files)
                  ''/tmp/tiger_counties/tl_2023_us_county.shp'' = Some table"
      and j: "j < length table"
      and raw: "county_row.GEOID (table ! j) = pop_row.GEOID r
                 \<or> county_row.GEOID (table ! j)
                      = str_of_int (1000 * sint (STATE c) + sint (COUNTY c))"
  proof -
    from raw num have "county_row.GEOID (table ! j) = pop_row.GEOID r" by auto
    with fixed have "zfill 5 (county_row.GEOID (table ! j)) = pop_row.GEOID r" by simp
    with load_tiger_counties_row [OF z t j, of status_code] show ?thesis by metis
  qed
  from g len dig code tie show ?thesis by blast
qed

text \<open>
  Beaver County, county code 1, has \<open>''49001''\<close> in the population table, and the
  boundary loader returns \<open>''49001''\<close> for its boundary row.
\<close>

theorem geoid_five_digits_witness:
  "read_csv demo_fs ''DataPop.csv'' = Inr (enumerate 0 demo_table)
   \<and> read_utah_population demo_fs ''DataPop.csv'' = Inr demo_pop_df
   \<and> (1, demo_table ! 1) \<in> set (enumerate 0 demo_table) \<and> (1, beaver) \<in> set demo_pop_df
   \<and> sint (COUNTY (demo_table ! 1)) = 1
   \<and> pop_row.GEOID beaver = ''49001''
   \<and> length (pop_row.GEOID beaver) = 5 \<and> list_all isdigit (pop_row.GEOID beaver)
   \<and> ZipFile demo_libs archive_bytes = Some [(''tl_2023_us_county.shp'', [3, 4])]
   \<and> county_row.GEOID (map snd (utah_filter demo_TIGER) ! 0) = ''49001''
   \<and> (\<exists>gdf files' b.
         load_tiger_counties demo_libs (Response 200 archive_bytes) Map.empty = (Inr gdf, files')
         \<and> (0, b) \<in> set gdf \<and> county_row.GEOID b = ''49001'')"
proof -
  have c: "(1, demo_table ! 1) \<in> set (enumerate 0 demo_table)"
    by (simp add: in_set_enumerate_eq demo_table_def)
  have r: "(1, beaver) \<in> set demo_pop_df" by (simp add: demo_pop_df_def)
  have k: "sint (COUNTY (demo_table ! 1)) = 1" by (simp add: demo_table_def)
  then have k0: "0 \<le> sint (COUNTY (demo_table ! 1))" and k1: "sint (COUNTY (demo_table ! 1)) \<le> 999"
    by simp_all
  have g: "pop_row.GEOID beaver = ''49001''" by (simp add: beaver_def)
  have z: "ZipFile demo_libs archive_bytes = Some [(''tl_2023_us_county.shp'', [3, 4])]"
    by (simp add: demo_libs_def archive_bytes_def)
  have t: "read_file demo_libs
             (extractall [(''tl_2023_us_county.shp'', [3, 4])] ''/tmp/tiger_counties'' Map.empty)
             ''/tmp/tiger_counties/tl_2023_us_county.shp'' = Some (map snd (utah_filter demo_TIGER))"
    by (simp add: demo_libs_def)
  have j: "0 < length (map snd (utah_filter demo_TIGER))"
    by (simp add: utah_filter_def demo_TIGER_def)
  have raw: "county_row.GEOID (map snd (utah_filter demo_TIGER) ! 0) = ''49001''"
    by (simp add: utah_filter_def demo_TIGER_def)
  note t0 = geoid_five_digits [OF demo_read_csv demo_read_utah_population c r k0 k1,
      of demo_libs archive_bytes "[(''tl_2023_us_county.shp'', [3, 4])]" Map.empty
        "map snd (utah_filter demo_TIGER)" 0 200]
  from t0 have "length (pop_row.GEOID beaver) = 5"
    and "\<forall>ch \<in> set (pop_row.GEOID beaver). isdigit ch"
    by blast+
  then have d: "length (pop_row.GEOID beaver) = 5 \<and> list_all isdigit (pop_row.GEOID beaver)"
    by (simp add: list_all_iff)
  note tie = t0 [THEN conjunct2, THEN conjunct2, THEN conjunct2, THEN conjunct2, THEN mp]
  from raw g have raw': "county_row.GEOID (map snd (utah_filter demo_TIGER) ! 0)
                          = pop_row.GEOID beaver"
    by simp
  from tie [OF conjI [OF z conjI [OF t conjI [OF j disjI1 [OF raw']]]]]
  have "\<exists>gdf files' b.
         load_tiger_counties demo_libs (Response 200 archive_bytes) Map.empty = (Inr gdf, files')
         \<and> (0, b) \<in> set gdf \<and> county_row.GEOID b = ''49001''"
    by (simp only: g)
  with demo_read_csv demo_read_utah_population c r k g d z raw show ?thesis by blast
qed

subsection \<open>Population loader: the state restriction\<close>

text \<open>
  Claim C5. Every row of the population loader's output has \<open>STATEFP\<close> equal to
  \<open>''49''\<close>, and no input row whose state code differs from 49 has its label in the
  output.
\<close>

theorem state_restriction:
  assumes "read_csv fs p = Inr df" and "read_utah_population fs p = Inr out"
  shows "(\<forall>(i, r) \<in> set out. pop_row.STATEFP r = ''49'')
       \<and> (\<forall>(i, c) \<in> set df. STATE c \<noteq> 49 \<longrightarrow> i \<notin> fst ` set out)"
proof (intro conjI)
  show "\<forall>(i, r) \<in> set out. pop_row.STATEFP r = ''49''"
    using read_utah_population_rows [OF assms] by blast
next
  have "False" if c: "(i, c) \<in> set df" and ne: "STATE c \<noteq> 49" and r: "(i, r) \<in> set out"
    for i c r
  proof -
    from r obtain c' where c': "(i, c') \<in> set df" "r = county_record c'" "pop_row.STATEFP r = ''49''"
      using read_utah_population_rows [OF assms] by blast
    have "c = c'" by (rule read_csv_labels [OF assms(1) c c'(1)])
    with c'(2,3) have "STATE c = 49" by (simp add: county_record_STATEFP)
    with ne show False by simp
  qed
  then show "\<forall>(i, c) \<in> set df. STATE c \<noteq> 49 \<longrightarrow> i \<notin> fst ` set out"
    by fastforce
qed

text \<open>On the sample table the Arizona county (label 2) is absent.\<close>

theorem state_restriction_witness:
  "read_csv demo_fs ''DataPop.csv'' = Inr (enumerate 0 demo_table)
   \<and> read_utah_population demo_fs ''DataPop.csv'' = Inr demo_pop_df
   \<and> (3, salt_lake) \<in> set demo_pop_df \<and> pop_row.STATEFP salt_lake = ''49''
   \<and> (2, demo_table ! 2) \<in> set (enumerate 0 demo_table) \<and> STATE (demo_table ! 2) = 4
   \<and> 2 \<notin> fst ` set demo_pop_df"
proof -
  note t = state_restriction [OF demo_read_csv demo_read_utah_population]
  have r: "(3, salt_lake) \<in> set demo_pop_df" by (simp add: demo_pop_df_def)
  with t have s: "pop_row.STATEFP salt_lake = ''49''" by blast
  have c2: "(2, demo_table ! 2) \<in> set (enumerate 0 demo_table)" "STATE (demo_table ! 2) = 4"
    by (simp_all add: in_set_enumerate_eq demo_table_def)
  with t have "2 \<notin> fst ` set demo_pop_df" by fastforce
  with demo_read_csv demo_read_utah_population r s c2 show ?thesis by simp
qed

subsection \<open>Population loader: state portion and join key\<close>

text \<open>
  Claim C9. In every row of the population loader's output, \<open>STATEFP\<close> is the first two
  characters of \<open>GEOID\<close>.
\<close>

theorem statefp_prefix_of_geoid:
  assumes "read_utah_population fs p = Inr out" and "(i, r) \<in> set out"
  shows "pop_row.STATEFP r = take 2 (pop_row.GEOID r)"
proof -
  from assms(1) obtain df where df: "read_csv fs p = Inr df"
    by (auto simp: read_utah_population_def split: sum.splits)
  from assms(2) obtain c where r: "r = county_record c" and s: "pop_row.STATEFP r = ''49''"
    using read_utah_population_rows [OF df assms(1)] by blast
  have "pop_row.GEOID r = pop_row.STATEFP r @ zfill 3 (str_of_int (sint (COUNTY c)))"
    by (simp add: r county_record_def Let_def)
  with s show ?thesis by simp
qed

text \<open>The row of Salt Lake County: \<open>''49''\<close> and \<open>''49035''\<close>.\<close>

theorem statefp_prefix_of_geoid_witness:
  "read_utah_population demo_fs ''DataPop.csv'' = Inr demo_pop_df
   \<and> (3, salt_lake) \<in> set demo_pop_df
   \<and> pop_row.STATEFP salt_lake = take 2 (pop_row.GEOID salt_lake)
   \<and> pop_row.GEOID salt_lake = ''49035''"
proof -
  have r: "(3, salt_lake) \<in> set demo_pop_df" by (simp add: demo_pop_df_def)
  have g: "pop_row.GEOID salt_lake = ''49035''" by (simp add: salt_lake_def)
  from statefp_prefix_of_geoid [OF demo_read_utah_population r] demo_read_utah_population r g
  show ?thesis by simp
qed

subsection \<open>Left join: rows contributed by one boundary row\<close>

lemma filter_key_unique:
  "distinct (map f xs) \<Longrightarrow> length (filter (\<lambda>x. f x = k) xs) \<le> 1"
proof (induction xs)
  case Nil
  then show ?case by simp
next
  case (Cons x xs)
  show ?case
  proof (cases "f x = k")
    case True
    with Cons.prems have "k \<notin> f ` set xs" by auto
    then have "filter (\<lambda>x. f x = k) xs = []" by (auto simp: filter_empty_conv)
    with True show ?thesis by simp
  next
    case False
    with Cons show ?thesis by simp
  qed
qed

lemma join_rows_unmatched:
  "county_row.GEOID b \<notin> (\<lambda>(j, p). pop_row.GEOID p) ` set right
     \<Longrightarrow> join_rows b right = [merged_with b None]"
proof -
  assume "county_row.GEOID b \<notin> (\<lambda>(j, p). pop_row.GEOID p) ` set right"
  then have "\<forall>x \<in> set right. pop_row.GEOID (snd x) \<noteq> county_row.GEOID b"
    by (force simp: case_prod_unfold)
  then have "filter (\<lambda>(j, p). pop_row.GEOID p = county_row.GEOID b) right = []"
    by (simp add: filter_empty_conv case_prod_unfold)
  then show ?thesis by (simp add: join_rows_def)
qed

lemma join_rows_cases:
  "m \<in> set (join_rows b right) \<Longrightarrow>
     m = merged_with b None \<and> county_row.GEOID b \<notin> (\<lambda>(j, p). pop_row.GEOID p) ` set right
     \<or> (\<exists>j p. (j, p) \<in> set right \<and> pop_row.GEOID p = county_row.GEOID b
            \<and> m = merged_with b (Some p))"
proof -
  assume m: "m \<in> set (join_rows b right)"
  let ?ms = "filter (\<lambda>(j, p). pop_row.GEOID p = county_row.GEOID b) right"
  show ?thesis
  proof (cases ?ms)
    case Nil
    then have "county_row.GEOID b \<notin> (\<lambda>(j, p). pop_row.GEOID p) ` set right"
      by (auto simp: filter_empty_conv)
    moreover from m Nil have "m = merged_with b None" by (simp add: join_rows_def)
    ultimately show ?thesis by simp
  next
    case (Cons x xs)
    with m have "m \<in> (\<lambda>(j, p). merged_with b (Some p)) ` set ?ms"
      by (simp add: join_rows_def)
    then show ?thesis by auto
  qed
qed

lemma join_rows_boundary:
  "m \<in> set (join_rows b right) \<Longrightarrow>
     merged_row.GEOID m = county_row.GEOID b \<and> STATEFP_x m = county_row.STATEFP b
     \<and> merged_row.geometry m = county_row.geometry b"
  by (auto dest!: join_rows_cases simp: merged_with_def)

lemma join_rows_nonempty: "join_rows b right \<noteq> []"
  by (simp add: join_rows_def split: list.splits)

lemma join_rows_length:
  "length (join_rows b right)
     = max 1 (length (filter (\<lambda>(j, p). pop_row.GEOID p = county_row.GEOID b) right))"
  by (simp add: join_rows_def split: list.splits)

lemma join_rows_single:
  assumes "distinct (map (\<lambda>(j, p). pop_row.GEOID p) right)"
  shows "\<exists>m. join_rows b right = [m]"
proof -
  have "length (filter (\<lambda>x. (\<lambda>(j, p). pop_row.GEOID p) x = county_row.GEOID b) right) \<le> 1"
    by (rule filter_key_unique [OF assms])
  then have "length (filter (\<lambda>(j, p). pop_row.GEOID p = county_row.GEOID b) right) \<le> 1"
    by (simp add: case_prod_unfold)
  then have "length (join_rows b right) = 1" by (simp add: join_rows_length)
  then show ?thesis by (auto simp: length_Suc_conv)
qed

lemma merge_left_rows:
  "map snd (merge_left left right) = concat (map (\<lambda>(i, b). join_rows b right) left)"
  by (simp add: merge_left_def)

lemma merge_left_set:
  "(k, m) \<in> set (merge_left left right) \<Longrightarrow> \<exists>i b. (i, b) \<in> set left \<and> m \<in> set (join_rows b right)"
proof -
  assume "(k, m) \<in> set (merge_left left right)"
  then have "m \<in> set (map snd (merge_left left right))" by force
  then show ?thesis unfolding merge_left_rows by auto
qed

lemma merge_left_keeps:
  "(i, b) \<in> set left \<Longrightarrow> m \<in> set (join_rows b right) \<Longrightarrow> \<exists>k. (k, m) \<in> set (merge_left left right)"
proof -
  assume "(i, b) \<in> set left" "m \<in> set (join_rows b right)"
  then have "m \<in> set (concat (map (\<lambda>(i, b). join_rows b right) left))" by force
  then have "m \<in> set (map snd (merge_left left right))" by (simp only: merge_left_rows)
  then show ?thesis by auto
qed

lemma concat_singletons:
  "\<forall>x \<in> set xs. \<exists>y. f x = [y] \<and> g y = h x \<Longrightarrow> map g (concat (map f xs)) = map h xs"
  by (induction xs) auto

lemma map_const_replicate: "\<forall>x \<in> set xs. g x = c \<Longrightarrow> map g xs = replicate (length xs) c"
  by (induction xs) auto

lemma join_rows_columns:
  "map (\<lambda>m. (merged_row.GEOID m, STATEFP_x m, merged_row.geometry m)) (join_rows b right)
     = replicate (max 1 (length (filter (\<lambda>(j, p). pop_row.GEOID p = county_row.GEOID b) right)))
         (county_row.GEOID b, county_row.STATEFP b, county_row.geometry b)"
proof -
  have "\<forall>m \<in> set (join_rows b right).
          (merged_row.GEOID m, STATEFP_x m, merged_row.geometry m)
            = (county_row.GEOID b, county_row.STATEFP b, county_row.geometry b)"
    by (auto dest: join_rows_boundary)
  then have "map (\<lambda>m. (merged_row.GEOID m, STATEFP_x m, merged_row.geometry m)) (join_rows b right)
     = replicate (length (join_rows b right))
         (county_row.GEOID b, county_row.STATEFP b, county_row.geometry b)"
    by (rule map_const_replicate)
  then show ?thesis by (simp only: join_rows_length)
qed

lemma frame_columns: "map (\<lambda>(k, m). g m) df = map g (map snd df)"
  by (simp add: case_prod_unfold)

lemma utah_gdf_rows:
  "map snd (utah_gdf TIGER pop_df)
     = concat (map (\<lambda>(i, b). join_rows b pop_df) (utah_filter TIGER))"
  by (simp add: utah_gdf_def merge_left_rows)

lemmas join_eval = utah_gdf_def utah_filter_def merge_left_def join_rows_def merged_with_def
  demo_TIGER_def scenario_pop_df_def box_elder_def

subsection \<open>Left join: row count\<close>

text \<open>
  Claim C1. If every \<open>GEOID\<close> occurs at most once in the population table, the joined
  view has exactly as many rows as the state-filtered boundary set, and its rows carry,
  in the same order, the boundary columns of the filtered boundary rows: none is dropped
  and none is duplicated.
\<close>

theorem left_join_row_count:
  assumes "distinct (map (\<lambda>(j, p). pop_row.GEOID p) pop_df)"
  shows "length (utah_gdf TIGER pop_df) = length (utah_filter TIGER)
       \<and> map (\<lambda>(k, m). (merged_row.GEOID m, STATEFP_x m, merged_row.geometry m))
             (utah_gdf TIGER pop_df)
         = map (\<lambda>(i, b). (county_row.GEOID b, county_row.STATEFP b, county_row.geometry b))
             (utah_filter TIGER)"
proof -
  let ?g = "\<lambda>m. (merged_row.GEOID m, STATEFP_x m, merged_row.geometry m)"
  let ?h = "\<lambda>(i, b). (county_row.GEOID b, county_row.STATEFP b, county_row.geometry b)"
  have one: "\<forall>x \<in> set (utah_filter TIGER).
               \<exists>m. (\<lambda>(i, b). join_rows b pop_df) x = [m] \<and> ?g m = ?h x"
  proof
    fix x assume "x \<in> set (utah_filter TIGER)"
    obtain i b where x: "x = (i, b)" by (cases x)
    from join_rows_single [OF assms, of b] obtain m where m: "join_rows b pop_df = [m]" ..
    then have "m \<in> set (join_rows b pop_df)" by simp
    then have "?g m = ?h x" unfolding x by (auto dest: join_rows_boundary)
    with m x show "\<exists>m. (\<lambda>(i, b). join_rows b pop_df) x = [m] \<and> ?g m = ?h x" by simp
  qed
  have "map (\<lambda>(k, m). ?g m) (utah_gdf TIGER pop_df) = map ?g (map snd (utah_gdf TIGER pop_df))"
    by (rule frame_columns)
  also have "\<dots> = map ?g (concat (map (\<lambda>(i, b). join_rows b pop_df) (utah_filter TIGER)))"
    by (simp only: utah_gdf_rows)
  also have "\<dots> = map ?h (utah_filter TIGER)"
    using one by (rule concat_singletons)
  finally have cols: "map (\<lambda>(k, m). ?g m) (utah_gdf TIGER pop_df) = map ?h (utah_filter TIGER)" .
  then have "length (map (\<lambda>(k, m). ?g m) (utah_gdf TIGER pop_df))
               = length (map ?h (utah_filter TIGER))"
    by (rule arg_cong)
  then have "length (utah_gdf TIGER pop_df) = length (utah_filter TIGER)" by simp
  with cols show ?thesis by simp
qed

text \<open>The scenario of the specification: three Utah boundaries, three joined rows.\<close>

theorem left_join_row_count_witness:
  "distinct (map (\<lambda>(j, p). pop_row.GEOID p) scenario_pop_df)
   \<and> length (utah_filter demo_TIGER) = 3
   \<and> length (utah_gdf demo_TIGER scenario_pop_df) = 3"
proof -
  have d: "distinct (map (\<lambda>(j, p). pop_row.GEOID p) scenario_pop_df)"
    by (simp add: scenario_pop_df_def)
  have n: "length (utah_filter demo_TIGER) = 3"
    by (simp add: utah_filter_def demo_TIGER_def)
  from left_join_row_count [OF d, of demo_TIGER] n
  have "length (utah_gdf demo_TIGER scenario_pop_df) = 3" by simp
  with d n show ?thesis by simp
qed

subsection \<open>Left join: unmatched boundary rows\<close>

text \<open>
  Claim C7. For every boundary row of the target state whose \<open>GEOID\<close> matches no row of
  the population table, the joined view contains a row with that \<open>GEOID\<close> and geometry
  whose population fields are null, and every joined row with that \<open>GEOID\<close> has null
  population fields (null is \<open>None\<close>, which is not the value zero).
\<close>

theorem unmatched_rows_null:
  assumes "(i, b) \<in> set TIGER" and "county_row.STATEFP b = ''49''"
    and "county_row.GEOID b \<notin> (\<lambda>(j, p). pop_row.GEOID p) ` set pop_df"
  shows "(\<exists>k m. (k, m) \<in> set (utah_gdf TIGER pop_df)
            \<and> merged_row.GEOID m = county_row.GEOID b
            \<and> merged_row.geometry m = county_row.geometry b
            \<and> POP2020 m = None \<and> POP2024 m = None \<and> Pop_Change m = None)
       \<and> (\<forall>(k, m) \<in> set (utah_gdf TIGER pop_df).
            merged_row.GEOID m = county_row.GEOID b
              \<longrightarrow> POP2020 m = None \<and> POP2024 m = None \<and> Pop_Change m = None
                  \<and> NAME m = None \<and> STATEFP_y m = None)"
proof (intro conjI)
  from assms(1,2) have f: "(i, b) \<in> set (utah_filter TIGER)" by (simp add: utah_filter_def)
  have "merged_with b None \<in> set (join_rows b pop_df)"
    by (simp add: join_rows_unmatched [OF assms(3)])
  with f obtain k where "(k, merged_with b None) \<in> set (utah_gdf TIGER pop_df)"
    unfolding utah_gdf_def by (blast dest: merge_left_keeps)
  then show "\<exists>k m. (k, m) \<in> set (utah_gdf TIGER pop_df)
            \<and> merged_row.GEOID m = county_row.GEOID b
            \<and> merged_row.geometry m = county_row.geometry b
            \<and> POP2020 m = None \<and> POP2024 m = None \<and> Pop_Change m = None"
    by (intro exI [of _ k] exI [of _ "merged_with b None"]) (simp add: merged_with_def)
next
  have "POP2020 m = None \<and> POP2024 m = None \<and> Pop_Change m = None
          \<and> NAME m = None \<and> STATEFP_y m = None"
    if km: "(k, m) \<in> set (utah_gdf TIGER pop_df)"
      and g: "merged_row.GEOID m = county_row.GEOID b" for k m
  proof -
    from km obtain i' b' where m: "m \<in> set (join_rows b' pop_df)"
      unfolding utah_gdf_def by (blast dest: merge_left_set)
    from join_rows_boundary [OF m] g have same: "county_row.GEOID b' = county_row.GEOID b"
      by simp
    from join_rows_cases [OF m] show ?thesis
    proof
      assume "m = merged_with b' None
                \<and> county_row.GEOID b' \<notin> (\<lambda>(j, p). pop_row.GEOID p) ` set pop_df"
      then show ?thesis by (simp add: merged_with_def)
    next
      assume "\<exists>j p. (j, p) \<in> set pop_df \<and> pop_row.GEOID p = county_row.GEOID b'
                \<and> m = merged_with b' (Some p)"
      then obtain j p where "(j, p) \<in> set pop_df" "pop_row.GEOID p = county_row.GEOID b"
        using same by auto
      then have "county_row.GEOID b \<in> (\<lambda>(j, p). pop_row.GEOID p) ` set pop_df" by force
      with assms(3) show ?thesis by simp
    qed
  qed
  then show "\<forall>(k, m) \<in> set (utah_gdf TIGER pop_df).
            merged_row.GEOID m = county_row.GEOID b
              \<longrightarrow> POP2020 m = None \<and> POP2024 m = None \<and> Pop_Change m = None
                  \<and> NAME m = None \<and> STATEFP_y m = None"
    by blast
qed

text \<open>In the scenario, county \<open>''49003''\<close> has no population record.\<close>

theorem unmatched_rows_null_witness:
  "(2, box_elder) \<in> set demo_TIGER \<and> county_row.STATEFP box_elder = ''49''
   \<and> county_row.GEOID box_elder \<notin> (\<lambda>(j, p). pop_row.GEOID p) ` set scenario_pop_df
   \<and> (1, merged_with box_elder None) \<in> set (utah_gdf demo_TIGER scenario_pop_df)
   \<and> merged_row.GEOID (merged_with box_elder None) = ''49003''
   \<and> POP2020 (merged_with box_elder None) = None
   \<and> POP2024 (merged_with box_elder None) = None
   \<and> Pop_Change (merged_with box_elder None) = None"
proof -
  have a: "(2, box_elder) \<in> set demo_TIGER" by (simp add: demo_TIGER_def box_elder_def)
  have b: "county_row.STATEFP box_elder = ''49''" by (simp add: box_elder_def)
  have c: "county_row.GEOID box_elder \<notin> (\<lambda>(j, p). pop_row.GEOID p) ` set scenario_pop_df"
    by (simp add: scenario_pop_df_def box_elder_def)
  have m: "(1, merged_with box_elder None) \<in> set (utah_gdf demo_TIGER scenario_pop_df)"
    by (simp add: join_eval)
  have g: "merged_row.GEOID (merged_with box_elder None) = ''49003''"
    by (simp add: merged_with_def box_elder_def)
  have g': "merged_row.GEOID (merged_with box_elder None) = county_row.GEOID box_elder"
    by (simp add: merged_with_def)
  from unmatched_rows_null [OF a b c] m g'
  have "POP2020 (merged_with box_elder None) = None
        \<and> POP2024 (merged_with box_elder None) = None
        \<and> Pop_Change (merged_with box_elder None) = None"
    by blast
  with a b c m g show ?thesis by blast
qed

subsection \<open>Left join: the boundary columns are carried over\<close>

text \<open>
  Claim C10. The boundary columns of the joined view, row by row, are those of the
  filtered boundary rows in order, each repeated once per matching population row (once
  when there is none). Every joined row has the \<open>GEOID\<close>, the geometry and the state
  portion of a filtered boundary row, and beyond them only population columns: null, or
  those of a population row with the same \<open>GEOID\<close>.
\<close>

theorem join_frame:
  "map (\<lambda>(k, m). (merged_row.GEOID m, STATEFP_x m, merged_row.geometry m))
       (utah_gdf TIGER pop_df)
     = concat (map (\<lambda>(i, b).
         replicate (max 1 (length (filter (\<lambda>(j, p). pop_row.GEOID p = county_row.GEOID b) pop_df)))
           (county_row.GEOID b, county_row.STATEFP b, county_row.geometry b))
         (utah_filter TIGER))
   \<and> (\<forall>(k, m) \<in> set (utah_gdf TIGER pop_df). \<exists>(i, b) \<in> set (utah_filter TIGER).
         merged_row.GEOID m = county_row.GEOID b
         \<and> merged_row.geometry m = county_row.geometry b
         \<and> STATEFP_x m = county_row.STATEFP b
         \<and> (m = merged_with b None
              \<or> (\<exists>(j, p) \<in> set pop_df. pop_row.GEOID p = county_row.GEOID b
                    \<and> m = merged_with b (Some p))))"
proof (intro conjI)
  show "map (\<lambda>(k, m). (merged_row.GEOID m, STATEFP_x m, merged_row.geometry m))
       (utah_gdf TIGER pop_df)
     = concat (map (\<lambda>(i, b).
         replicate (max 1 (length (filter (\<lambda>(j, p). pop_row.GEOID p = county_row.GEOID b) pop_df)))
           (county_row.GEOID b, county_row.STATEFP b, county_row.geometry b))
         (utah_filter TIGER))"
    unfolding frame_columns utah_gdf_rows
    by (induction "utah_filter TIGER") (simp_all add: map_concat case_prod_unfold join_rows_columns comp_def)
next
  have "\<exists>(i, b) \<in> set (utah_filter TIGER).
         merged_row.GEOID m = county_row.GEOID b
         \<and> merged_row.geometry m = county_row.geometry b
         \<and> STATEFP_x m = county_row.STATEFP b
         \<and> (m = merged_with b None
              \<or> (\<exists>(j, p) \<in> set pop_df. pop_row.GEOID p = county_row.GEOID b
                    \<and> m = merged_with b (Some p)))"
    if "(k, m) \<in> set (utah_gdf TIGER pop_df)" for k m
  proof -
    from that obtain i b where b: "(i, b) \<in> set (utah_filter TIGER)"
      and m: "m \<in> set (join_rows b pop_df)"
      unfolding utah_gdf_def by (blast dest: merge_left_set)
    from join_rows_boundary [OF m] join_rows_cases [OF m] b show ?thesis by blast
  qed
  then show "\<forall>(k, m) \<in> set (utah_gdf TIGER pop_df). \<exists>(i, b) \<in> set (utah_filter TIGER).
         merged_row.GEOID m = county_row.GEOID b
         \<and> merged_row.geometry m = county_row.geometry b
         \<and> STATEFP_x m = county_row.STATEFP b
         \<and> (m = merged_with b None
              \<or> (\<exists>(j, p) \<in> set pop_df. pop_row.GEOID p = county_row.GEOID b
                    \<and> m = merged_with b (Some p)))"
    by blast
qed

text \<open>In the scenario the three joined rows carry the three Utah boundaries.\<close>

theorem join_frame_witness:
  "map (\<lambda>(k, m). (merged_row.GEOID m, STATEFP_x m, merged_row.geometry m))
       (utah_gdf demo_TIGER scenario_pop_df)
     = [(''49001'', ''49'', ''beaver''), (''49003'', ''49'', ''box elder''),
        (''49005'', ''49'', ''cache'')]"
proof -
  from join_frame [of demo_TIGER scenario_pop_df]
  have "map (\<lambda>(k, m). (merged_row.GEOID m, STATEFP_x m, merged_row.geometry m))
       (utah_gdf demo_TIGER scenario_pop_df)
     = concat (map (\<lambda>(i, b).
         replicate (max 1 (length (filter (\<lambda>(j, p). pop_row.GEOID p = county_row.GEOID b) scenario_pop_df)))
           (county_row.GEOID b, county_row.STATEFP b, county_row.geometry b))
         (utah_filter demo_TIGER))"
    by (rule conjunct1)
  also have "\<dots> = [(''49001'', ''49'', ''beaver''), (''49003'', ''49'', ''box elder''),
        (''49005'', ''49'', ''cache'')]"
    by (simp add: utah_filter_def demo_TIGER_def scenario_pop_df_def)
  finally show ?thesis .
qed

subsection \<open>Bar chart data: descending order\<close>

lemma sort_key_nth_Suc:
  "Suc k < length xs \<Longrightarrow> f (sort_key f xs ! k) \<le> f (sort_key f xs ! Suc k)"
proof -
  assume k: "Suc k < length xs"
  have "sorted (map f (sort_key f xs))" by (rule sorted_sort_key)
  moreover from k have "Suc k < length (map f (sort_key f xs))" by simp
  ultimately have "map f (sort_key f xs) ! k \<le> map f (sort_key f xs) ! Suc k"
    by (simp add: sorted_iff_nth_Suc del: length_map length_sort)
  with k show ?thesis by simp
qed

text \<open>
  Claim C8. The table fed to the bar chart is a rearrangement of the population table
  in which, for every pair of consecutive rows, the earlier row's \<open>POP2024\<close> is greater
  than or equal to the later row's.
\<close>

theorem plot_df_descending:
  "mset (plot_df pop_df) = mset pop_df
   \<and> (\<forall>k. Suc k < length (plot_df pop_df) \<longrightarrow>
          sint (pop_row.POP2024 (snd (plot_df pop_df ! Suc k)))
            \<le> sint (pop_row.POP2024 (snd (plot_df pop_df ! k))))"
proof (intro conjI allI impI)
  show "mset (plot_df pop_df) = mset pop_df" by (simp add: plot_df_def)
next
  fix k assume "Suc k < length (plot_df pop_df)"
  then have "Suc k < length pop_df" by (simp add: plot_df_def)
  from sort_key_nth_Suc [OF this, of "\<lambda>(i, r). - sint (pop_row.POP2024 r)"]
  show "sint (pop_row.POP2024 (snd (plot_df pop_df ! Suc k)))
          \<le> sint (pop_row.POP2024 (snd (plot_df pop_df ! k)))"
    by (simp add: plot_df_def case_prod_unfold)
qed

text \<open>On the sample output, Salt Lake County (1216000) precedes Beaver County (9500).\<close>

theorem plot_df_descending_witness:
  "plot_df demo_pop_df = [(3, salt_lake), (1, beaver)]
   \<and> Suc 0 < length (plot_df demo_pop_df)
   \<and> sint (pop_row.POP2024 (snd (plot_df demo_pop_df ! Suc 0)))
        \<le> sint (pop_row.POP2024 (snd (plot_df demo_pop_df ! 0)))"
proof -
  have p: "plot_df demo_pop_df = [(3, salt_lake), (1, beaver)]"
    by (simp add: plot_df_def demo_pop_df_def salt_lake_def beaver_def)
  then have l: "Suc 0 < length (plot_df demo_pop_df)" by simp
  from plot_df_descending [of demo_pop_df] l
  have "sint (pop_row.POP2024 (snd (plot_df demo_pop_df ! Suc 0)))
        \<le> sint (pop_row.POP2024 (snd (plot_df demo_pop_df ! 0)))"
    by blast
  with p l show ?thesis by blast
qed

subsection \<open>Boundary loader: failures of the request\<close>



end
